theory Spec2Isabelle
  imports Complex_Main
begin

section \<open>Text extraction and analysis pipeline (main\_pipline.py)\<close>

text \<open>
  A shallow embedding of the pipeline's helper functions, its metrics engine
  \<open>analyze_text\<close>, the extraction loop \<open>extract_articles\<close> and the driver \<open>main\<close>.

  A Python string is the list of its code points, a code point a natural number;
  \<open>str ''abc''\<close> is the string of a literal. Python integers are \<open>int\<close>.
\<close>

subsection \<open>Strings\<close>

type_synonym str = "nat list"

definition str :: "string \<Rightarrow> str" where
  "str s = map of_char s"

text \<open>
  What Python knows of a character it reads in the Unicode database the interpreter is
  built with. The database is a parameter of the model:

    \<^item> \<open>cp_isalpha\<close> and \<open>cp_isalnum\<close>: the character is a letter (\<open>c.isalpha()\<close>),
      a letter or a digit or another numeric character (\<open>c.isalnum()\<close>);
    \<^item> \<open>cp_tolower\<close> and \<open>cp_toupper\<close>: the lower-case and upper-case form of the
      character that the module \<open>re\<close> compares under the flag \<open>re.I\<close>;
    \<^item> \<open>full_lower\<close>: \<open>s.lower()\<close> of a string with a character outside ASCII (the
      mapping can change the length of the string and look at the context);
    \<^item> \<open>EXTRA_CASES\<close>: the table of the module \<open>re\<close> that gives, for a lower-case
      character, the other lower-case characters with the same upper-case form.
\<close>

record unicodedata =
  cp_isalpha :: "nat \<Rightarrow> bool"
  cp_isalnum :: "nat \<Rightarrow> bool"
  cp_tolower :: "nat \<Rightarrow> nat"
  cp_toupper :: "nat \<Rightarrow> nat"
  full_lower :: "str \<Rightarrow> str"
  EXTRA_CASES :: "nat \<rightharpoonup> nat list"

definition ascii_tolower :: "nat \<Rightarrow> nat" where
  "ascii_tolower c = (if 0x41 \<le> c \<and> c \<le> 0x5A then c + 0x20 else c)"

definition ascii_toupper :: "nat \<Rightarrow> nat" where
  "ascii_toupper c = (if 0x61 \<le> c \<and> c \<le> 0x7A then c - 0x20 else c)"

definition ascii_isalpha :: "nat \<Rightarrow> bool" where
  "ascii_isalpha c = (0x41 \<le> c \<and> c \<le> 0x5A \<or> 0x61 \<le> c \<and> c \<le> 0x7A)"

text \<open>
  \<open>w.lower()\<close>: on a string of ASCII characters the letters \<open>A\<close> to \<open>Z\<close> become
  \<open>a\<close> to \<open>z\<close>, character by character; any other string is lowered by the database.
\<close>

definition lower :: "unicodedata \<Rightarrow> str \<Rightarrow> str" where
  "lower db w = (if list_all (\<lambda>c. c < 0x80) w then map ascii_tolower w else full_lower db w)"

text \<open>\<open>w.isalpha()\<close>: every character is a letter and there is at least one.\<close>

definition isalpha :: "unicodedata \<Rightarrow> str \<Rightarrow> bool" where
  "isalpha db w = (w \<noteq> [] \<and> list_all (cp_isalpha db) w)"

text \<open>\<open>w.endswith(suf)\<close>\<close>

definition endswith :: "str \<Rightarrow> str \<Rightarrow> bool" where
  "endswith w suf = (length suf \<le> length w \<and> drop (length w - length suf) w = suf)"

subsection \<open>Syllables and complex words\<close>

definition vowels :: str where
  "vowels = str ''aeiou''"

text \<open>
  One round of the loop \<open>for char in word\<close> of \<open>count_syllables\<close>, on the loop's two
  variables \<open>(count, prev_vowel)\<close>.
\<close>

definition scan_step :: "int \<times> bool \<Rightarrow> nat \<Rightarrow> int \<times> bool" where
  "scan_step st char =
     (case st of (count, prev_vowel) \<Rightarrow>
        if char \<in> set vowels
        then (if \<not> prev_vowel then count + 1 else count, True)
        else (count, False))"

definition count_syllables :: "unicodedata \<Rightarrow> str \<Rightarrow> int" where
  "count_syllables db word0 =
     (let word = lower db word0;
          count = fst (foldl scan_step (0, False) word);
          count = (if endswith word (str ''es'') \<or> endswith word (str ''ed'')
                   then count - 1 else count)
      in max count 1)"

definition is_complex :: "unicodedata \<Rightarrow> str \<Rightarrow> bool" where
  "is_complex db word = (count_syllables db word > 2)"

subsection \<open>Personal pronouns: the pattern and \<open>re.findall\<close>\<close>

text \<open>
  \<open>count_personal_pronouns\<close> counts the matches of the pattern
  \<^verbatim>\<open>\b(I|we|my|ours|us)\b\<close> under the flag \<open>re.I\<close>. The pattern and the text are
  strings, so the module \<open>re\<close> works on Unicode. The fragment of regular expressions
  the pattern uses: the empty pattern, one literal character, the word boundary
  \<^verbatim>\<open>\b\<close>, sequence and ordered alternative.
\<close>

datatype regex = Eps | Lit nat | WordBoundary | Seq regex regex | Alt regex regex

text \<open>
  A literal \<open>av\<close> of the pattern against the character \<open>ch\<close> of the text. Without the
  flag \<open>re.I\<close>, and for a literal that has no other case, the two are compared. With
  the flag the compiler lowers the literal and the matcher lowers the character of the
  text: the two lower-case forms are to be equal, or, when the table \<open>EXTRA_CASES\<close>
  has an entry for the lowered literal, the second is to be the first or one of the
  entry.
\<close>

definition unicode_iscased :: "unicodedata \<Rightarrow> nat \<Rightarrow> bool" where
  "unicode_iscased db ch = (\<not> (ch = cp_tolower db ch \<and> ch = cp_toupper db ch))"

definition lit_match :: "unicodedata \<Rightarrow> bool \<Rightarrow> nat \<Rightarrow> nat \<Rightarrow> bool" where
  "lit_match db ic av ch =
     (if \<not> ic then ch = av
      else if \<not> unicode_iscased db av then ch = av
      else (let lo = cp_tolower db av in
            case EXTRA_CASES db lo of
              None \<Rightarrow> cp_tolower db ch = lo
            | Some fixes \<Rightarrow> cp_tolower db ch \<in> set (lo # fixes)))"

text \<open>The class \<^verbatim>\<open>\w\<close>: the alphanumeric characters and the underscore.\<close>

definition word_char :: "unicodedata \<Rightarrow> nat \<Rightarrow> bool" where
  "word_char db c = (cp_isalnum db c \<or> c = 0x5F)"

text \<open>
  \<^verbatim>\<open>\b\<close> holds at a position when exactly one of the characters before and after it
  is a word character; the start and the end of the text count as non-word.
\<close>

definition at_boundary :: "unicodedata \<Rightarrow> nat option \<Rightarrow> str \<Rightarrow> bool" where
  "at_boundary db prev rest =
     ((case prev of None \<Rightarrow> False | Some c \<Rightarrow> word_char db c) \<noteq>
      (case rest of [] \<Rightarrow> False | c # _ \<Rightarrow> word_char db c))"

text \<open>
  The backtracking matcher. A position is the character before it (if any) and the text
  after it; \<open>rmatch db ic r pos\<close> lists the positions where a match of \<open>r\<close> from \<open>pos\<close>
  can end, in the order the engine tries them: the head is the match it reports.
  \<open>ic\<close> is the flag \<open>re.I\<close>.
\<close>

fun rmatch ::
  "unicodedata \<Rightarrow> bool \<Rightarrow> regex \<Rightarrow> nat option \<times> str \<Rightarrow> (nat option \<times> str) list" where
  "rmatch db ic Eps st = [st]"
| "rmatch db ic (Lit c) (prev, []) = []"
| "rmatch db ic (Lit c) (prev, x # xs) = (if lit_match db ic c x then [(Some x, xs)] else [])"
| "rmatch db ic WordBoundary (prev, rest) =
     (if at_boundary db prev rest then [(prev, rest)] else [])"
| "rmatch db ic (Seq r1 r2) st = concat (map (rmatch db ic r2) (rmatch db ic r1 st))"
| "rmatch db ic (Alt r1 r2) st = rmatch db ic r1 st @ rmatch db ic r2 st"

text \<open>
  \<open>re.findall\<close>: the matched texts, scanning from the left, each search starting where
  the last match ended, or one character on where there was none (or an empty one).
\<close>

function findall :: "unicodedata \<Rightarrow> bool \<Rightarrow> regex \<Rightarrow> nat option \<Rightarrow> str \<Rightarrow> str list" where
  "findall db ic r prev [] = (case rmatch db ic r (prev, []) of [] \<Rightarrow> [] | m # _ \<Rightarrow> [[]])"
| "findall db ic r prev (x # xs) =
     (case rmatch db ic r (prev, x # xs) of
        [] \<Rightarrow> findall db ic r (Some x) xs
      | (prev', rest) # _ \<Rightarrow>
          if length rest < length (x # xs)
          then take (length (x # xs) - length rest) (x # xs) # findall db ic r prev' rest
          else [] # findall db ic r (Some x) xs)"
  by pat_completeness auto
termination
  by (relation "measure (\<lambda>(db, ic, r, prev, s). length s)") auto

definition literal :: "str \<Rightarrow> regex" where
  "literal w = foldr (\<lambda>c r. Seq (Lit c) r) w Eps"

definition pronoun_pattern :: regex where
  "pronoun_pattern =
     Seq WordBoundary
       (Seq (Alt (literal (str ''I'')) (Alt (literal (str ''we'')) (Alt (literal (str ''my''))
               (Alt (literal (str ''ours'')) (literal (str ''us''))))))
            WordBoundary)"

definition count_personal_pronouns :: "unicodedata \<Rightarrow> str \<Rightarrow> int" where
  "count_personal_pronouns db text =
     int (length (findall db True pronoun_pattern None text))"

text \<open>
  The reading of the specification, to compare with the pattern. The whole words of a
  text are its maximal runs of word characters. A whole word is a personal pronoun when
  it is one of the five up to the case of its letters: each of its characters, taken in
  lower case, is the letter of the pronoun at this place, where the dotless i (U+0131,
  whose capital is I) stands for i and the long s (U+017F, whose capital is S) for s.
\<close>

function words_of :: "unicodedata \<Rightarrow> str \<Rightarrow> str list" where
  "words_of db [] = []"
| "words_of db (c # cs) =
     (if word_char db c
      then takeWhile (word_char db) (c # cs) # words_of db (dropWhile (word_char db) cs)
      else words_of db cs)"
  by pat_completeness auto
termination
  by (relation "measure (\<lambda>(db, s). length s)") (auto simp: le_imp_less_Suc length_dropWhile_le)

definition pronouns :: "str list" where
  "pronouns = [str ''i'', str ''we'', str ''my'', str ''ours'', str ''us'']"

definition caseless :: "unicodedata \<Rightarrow> nat \<Rightarrow> nat" where
  "caseless db ch =
     (let lo = cp_tolower db ch
      in if lo = 0x131 then 0x69 else if lo = 0x17F then 0x73 else lo)"

definition is_pronoun :: "unicodedata \<Rightarrow> str \<Rightarrow> bool" where
  "is_pronoun db w = (map (caseless db) w \<in> set pronouns)"

definition prev_word :: "unicodedata \<Rightarrow> nat option \<Rightarrow> bool" where
  "prev_word db p = (case p of None \<Rightarrow> False | Some c \<Rightarrow> word_char db c)"

text \<open>
  What the comparison of the pattern with the words uses of the database, each a fact of
  the Unicode character database:

    \<^item> on the ASCII characters the lower-case form is that of \<open>A\<close> to \<open>Z\<close> and the
      upper-case form that of \<open>a\<close> to \<open>z\<close>;
    \<^item> of the ASCII characters the table \<open>EXTRA_CASES\<close> has \<open>i\<close>, with the dotless i,
      and \<open>s\<close>, with the long s, and no other;
    \<^item> a character that is an ASCII letter up to case is alphanumeric (these are the
      ASCII letters, the dotless i, the capital I with a dot, the long s and the Kelvin
      sign).
\<close>

definition unicode :: "unicodedata \<Rightarrow> bool" where
  "unicode db =
     ((\<forall>c < 0x80. cp_tolower db c = ascii_tolower c \<and> cp_toupper db c = ascii_toupper c) \<and>
      EXTRA_CASES db 0x69 = Some [0x131] \<and>
      EXTRA_CASES db 0x73 = Some [0x17F] \<and>
      (\<forall>c < 0x80. c \<noteq> 0x69 \<longrightarrow> c \<noteq> 0x73 \<longrightarrow> EXTRA_CASES db c = None) \<and>
      (\<forall>ch. ascii_isalpha (caseless db ch) \<longrightarrow> cp_isalnum db ch))"

subsection \<open>Numbers\<close>

text \<open>
  A Python float is a double: the result of each float operation is the exact result,
  rounded. The rounding is the parameter \<open>rnd\<close> of the model, and \<open>rounding rnd\<close> says
  what the theorems use of it: it is monotone, odd and idempotent, it keeps 1, and the
  literal \<open>0.000001\<close> is a positive double. Rounding to the nearest double has these
  properties on the range of the doubles, which the counts of a text do not leave;
  so has exact arithmetic, \<open>rnd = (\<lambda>x. x)\<close>.

  Division raises \<open>ZeroDivisionError\<close> on a zero divisor. The quotient of two ints is
  the rounded exact quotient; an int that meets a float is converted first
  (\<open>float_of_int\<close>).
\<close>

datatype error = ZeroDivisionError

definition bind_err :: "error + 'a \<Rightarrow> ('a \<Rightarrow> error + 'b) \<Rightarrow> error + 'b" where
  "bind_err m f = (case m of Inl e \<Rightarrow> Inl e | Inr x \<Rightarrow> f x)"

definition rounding :: "(real \<Rightarrow> real) \<Rightarrow> bool" where
  "rounding rnd =
     (mono rnd \<and> (\<forall>x. rnd (- x) = - rnd x) \<and> (\<forall>x. rnd (rnd x) = rnd x) \<and>
      rnd 1 = 1 \<and> 0 < rnd (1 / 1000000))"

definition float_of_int :: "(real \<Rightarrow> real) \<Rightarrow> int \<Rightarrow> real" where
  "float_of_int rnd i = rnd (of_int i)"

definition fadd :: "(real \<Rightarrow> real) \<Rightarrow> real \<Rightarrow> real \<Rightarrow> real" where
  "fadd rnd a b = rnd (a + b)"

definition fmul :: "(real \<Rightarrow> real) \<Rightarrow> real \<Rightarrow> real \<Rightarrow> real" where
  "fmul rnd a b = rnd (a * b)"

definition truediv :: "(real \<Rightarrow> real) \<Rightarrow> real \<Rightarrow> real \<Rightarrow> error + real" where
  "truediv rnd a b = (if b = 0 then Inl ZeroDivisionError else Inr (rnd (a / b)))"

subsection \<open>The metrics engine\<close>

text \<open>
  \<open>polarity_score\<close> and \<open>subjectivity_score\<close> are the two assignments of
  \<open>analyze_text\<close> with these names, as functions of the counts they read.
\<close>

definition polarity_score :: "(real \<Rightarrow> real) \<Rightarrow> int \<Rightarrow> int \<Rightarrow> error + real" where
  "polarity_score rnd positive_score negative_score =
     truediv rnd (float_of_int rnd (positive_score - negative_score))
       (fadd rnd (float_of_int rnd (positive_score + negative_score)) (rnd (1 / 1000000)))"

definition subjectivity_score :: "(real \<Rightarrow> real) \<Rightarrow> int \<Rightarrow> int \<Rightarrow> int \<Rightarrow> error + real" where
  "subjectivity_score rnd positive_score negative_score word_count =
     truediv rnd (float_of_int rnd (positive_score + negative_score))
       (fadd rnd (float_of_int rnd word_count) (rnd (1 / 1000000)))"

definition cleaned_words :: "unicodedata \<Rightarrow> str list \<Rightarrow> str set \<Rightarrow> str list" where
  "cleaned_words db words stop_words =
     map (lower db) (filter (\<lambda>w. isalpha db w \<and> lower db w \<notin> stop_words) words)"

text \<open>
  The tokenizers \<open>sent_tokenize\<close> and \<open>word_tokenize\<close> are the library's and are
  parameters. The result is the list of the 13 metrics, ints and floats alike as reals.
\<close>

definition analyze_text ::
  "(real \<Rightarrow> real) \<Rightarrow> unicodedata \<Rightarrow> (str \<Rightarrow> str list) \<Rightarrow> (str \<Rightarrow> str list) \<Rightarrow>
   str \<Rightarrow> str set \<Rightarrow> str set \<Rightarrow> str set \<Rightarrow> error + real list" where
  "analyze_text rnd db sent_tokenize word_tokenize text stop_words positive_words
       negative_words =
     (let sentences = sent_tokenize text;
          words = word_tokenize text;
          cleaned_words = cleaned_words db words stop_words;
          word_count = int (length cleaned_words);
          sentence_count = int (length sentences);
          positive_score = (\<Sum>w \<leftarrow> filter (\<lambda>w. w \<in> positive_words) cleaned_words. (1::int));
          negative_score = (\<Sum>w \<leftarrow> filter (\<lambda>w. w \<in> negative_words) cleaned_words. (1::int))
      in
      bind_err (polarity_score rnd positive_score negative_score) (\<lambda>polarity_score.
      bind_err (subjectivity_score rnd positive_score negative_score word_count)
        (\<lambda>subjectivity_score.
      bind_err (if sentence_count \<noteq> 0
                then truediv rnd (of_int word_count) (of_int sentence_count) else Inr 0)
        (\<lambda>avg_sentence_length.
      let complex_words = filter (is_complex db) cleaned_words;
          complex_word_count = int (length complex_words)
      in
      bind_err (if word_count \<noteq> 0
                then truediv rnd (of_int complex_word_count) (of_int word_count) else Inr 0)
        (\<lambda>percentage_complex_words.
      let fog_index =
            fmul rnd (rnd (4 / 10)) (fadd rnd avg_sentence_length percentage_complex_words)
      in
      bind_err (if word_count \<noteq> 0
                then truediv rnd (of_int (\<Sum>w \<leftarrow> cleaned_words. count_syllables db w))
                       (of_int word_count)
                else Inr 0)
        (\<lambda>syllables_per_word.
      let personal_pronouns = count_personal_pronouns db text
      in
      bind_err (if word_count \<noteq> 0
                then truediv rnd (of_int (\<Sum>w \<leftarrow> cleaned_words. int (length w)))
                       (of_int word_count)
                else Inr 0)
        (\<lambda>avg_word_length.
      Inr [of_int positive_score,
           of_int negative_score,
           polarity_score,
           subjectivity_score,
           avg_sentence_length,
           percentage_complex_words,
           fog_index,
           avg_sentence_length,
           of_int complex_word_count,
           of_int word_count,
           syllables_per_word,
           of_int personal_pronouns,
           avg_word_length])))))))"

text \<open>The value of \<open>x / n if n else 0\<close>, for ints \<open>x\<close> and \<open>n\<close>.\<close>

definition guarded_ratio :: "(real \<Rightarrow> real) \<Rightarrow> int \<Rightarrow> int \<Rightarrow> real" where
  "guarded_ratio rnd a b = (if b \<noteq> 0 then rnd (of_int a / of_int b) else 0)"

subsection \<open>Article extraction\<close>

text \<open>
  A row of the input table is the pair of its \<open>URL_ID\<close> and \<open>URL\<close>. What the libraries
  do is data of the model: \<open>session.get\<close>, with the retrying adapter mounted, either
  raises or returns a response; the parser either rejects the body of the response or
  gives the page, of which the loop reads the stripped text of the first \<open>h1\<close>
  element, if there is one, and the stripped texts of the paragraphs of the \<open>div\<close> of
  class \<open>td-post-content\<close>, if there is one. \<open>raise_for_status\<close> raises on the
  status codes 400 to 599.

  The article folder is a map from paths to contents, and what the operating system
  does is a parameter: \<open>os_path_join\<close> is \<open>os.path.join\<close> of the platform;
  \<open>os_open path\<close> is the exception that \<open>open(path, "w", encoding="utf-8")\<close>
  raises, if any (there is no such directory, the name is not one of a file, the
  permission is missing); once the file is open it exists and is empty.
  \<open>os_write path s\<close> is the exception that \<open>f.write(s)\<close> or the closing of the file
  at the end of the \<open>with\<close> block raises, if any, with what it has left in the file.
  What the loop prints is a list of messages.
\<close>

type_synonym row = "str \<times> str"

record soup =
  h1 :: "str option"
  td_post_content :: "str list option"

datatype exn =
  RequestException str | HTTPError nat str | ParserRejectedMarkup str | OSError str |
  ValueError str

record response =
  status_code :: nat
  reason :: str
  parsed :: "exn + soup"

datatype message = Saved str | Failed str exn

record os =
  os_path_join :: "str \<Rightarrow> str \<Rightarrow> str"
  os_open :: "str \<Rightarrow> exn option"
  os_write :: "str \<Rightarrow> str \<Rightarrow> (exn \<times> str) option"

record state =
  files :: "str \<rightharpoonup> str"
  stdout :: "message list"

definition ARTICLE_FOLDER :: str where
  "ARTICLE_FOLDER = str ''src/extracted_articles''"

definition article_path :: "os \<Rightarrow> str \<Rightarrow> str" where
  "article_path sys url_id = os_path_join sys ARTICLE_FOLDER (url_id @ str ''.txt'')"

definition newline :: str where
  "newline = [0x0A]"

fun join :: "str \<Rightarrow> str list \<Rightarrow> str" where
  "join sep [] = []"
| "join sep [p] = p"
| "join sep (p # ps) = p @ sep @ join sep ps"

definition raise_for_status :: "response \<Rightarrow> exn + unit" where
  "raise_for_status r =
     (if 400 \<le> status_code r \<and> status_code r < 600
      then Inl (HTTPError (status_code r) (reason r)) else Inr ())"

text \<open>
  The body of the loop of \<open>extract_articles\<close>, with its \<open>try\<close> and \<open>except\<close>: the
  request, the status check, the parsing, the opening of the file and the write are all
  inside the \<open>try\<close>, and whatever one of them raises is printed by the \<open>except\<close>
  branch.
\<close>

definition extract_article :: "os \<Rightarrow> (str \<Rightarrow> exn + response) \<Rightarrow> state \<Rightarrow> row \<Rightarrow> state" where
  "extract_article sys session_get st row =
     (case row of (url_id, url) \<Rightarrow>
        (case session_get url of
           Inl e \<Rightarrow> st\<lparr>stdout := stdout st @ [Failed url_id e]\<rparr>
         | Inr response \<Rightarrow>
             (case raise_for_status response of
                Inl e \<Rightarrow> st\<lparr>stdout := stdout st @ [Failed url_id e]\<rparr>
              | Inr _ \<Rightarrow>
                  (case parsed response of
                     Inl e \<Rightarrow> st\<lparr>stdout := stdout st @ [Failed url_id e]\<rparr>
                   | Inr soup \<Rightarrow>
                       (let title_text = (case h1 soup of Some t \<Rightarrow> t | None \<Rightarrow> []);
                            article_text =
                              (case td_post_content soup of
                                 Some paragraphs \<Rightarrow> join newline paragraphs
                               | None \<Rightarrow> []);
                            file_path = article_path sys url_id;
                            content = title_text @ newline @ newline @ article_text
                        in case os_open sys file_path of
                             Some e \<Rightarrow> st\<lparr>stdout := stdout st @ [Failed url_id e]\<rparr>
                           | None \<Rightarrow>
                               (case os_write sys file_path content of
                                  Some (e, left) \<Rightarrow>
                                    st\<lparr>files := (files st)(file_path \<mapsto> left),
                                       stdout := stdout st @ [Failed url_id e]\<rparr>
                                | None \<Rightarrow>
                                    st\<lparr>files := (files st)(file_path \<mapsto> content),
                                       stdout := stdout st @ [Saved url_id]\<rparr>))))))"

definition extract_articles ::
  "os \<Rightarrow> (str \<Rightarrow> exn + response) \<Rightarrow> state \<Rightarrow> row list \<Rightarrow> state" where
  "extract_articles sys session_get st df = foldl (extract_article sys session_get) st df"

subsection \<open>The driver\<close>

text \<open>
  A cell of the report is a string or a number. \<open>analyze_rows\<close> is the second loop of
  \<open>main\<close>, with the list \<open>results\<close> it appends to; \<open>main\<close> returns the state after the
  extraction and the rows it hands to the output table. The input table, the stopwords
  and the two dictionaries are read by libraries and are parameters, as is the content of
  the article folder at the start.
\<close>

datatype cell = S str | N real

fun analyze_rows ::
  "(str \<Rightarrow> error + real list) \<Rightarrow> os \<Rightarrow> (str \<rightharpoonup> str) \<Rightarrow> row list \<Rightarrow>
   cell list list \<Rightarrow> error + cell list list" where
  "analyze_rows analyze sys fs [] results = Inr results"
| "analyze_rows analyze sys fs ((url_id, url) # rows) results =
     (case fs (article_path sys url_id) of
        None \<Rightarrow> analyze_rows analyze sys fs rows results
      | Some text \<Rightarrow>
          bind_err (analyze text) (\<lambda>metrics.
            analyze_rows analyze sys fs rows
              (results @ [[S url_id, S url] @ map N metrics])))"

definition main ::
  "(real \<Rightarrow> real) \<Rightarrow> unicodedata \<Rightarrow> (str \<Rightarrow> str list) \<Rightarrow> (str \<Rightarrow> str list) \<Rightarrow>
   os \<Rightarrow> (str \<Rightarrow> exn + response) \<Rightarrow> (str \<rightharpoonup> str) \<Rightarrow>
   row list \<Rightarrow> str set \<Rightarrow> str set \<Rightarrow> str set \<Rightarrow> error + state \<times> cell list list" where
  "main rnd db sent_tokenize word_tokenize sys session_get files0 df stop_words
       positive_words negative_words =
     (let st = extract_articles sys session_get \<lparr>files = files0, stdout = []\<rparr> df
      in bind_err
           (analyze_rows
              (\<lambda>text. analyze_text rnd db sent_tokenize word_tokenize text stop_words
                         positive_words negative_words)
              sys (files st) df [])
           (\<lambda>results. Inr (st, results)))"

subsection \<open>Example inputs\<close>

text \<open>
  The Unicode database up to U+017F (the blocks Basic Latin, Latin-1 Supplement and
  Latin Extended-A), the characters above it taken as caseless and not alphanumeric.
  In it the capital I with a dot (U+0130) has the lower-case form \<open>i\<close>, and as a string
  lowers to \<open>i\<close> and a combining dot; the upper-case forms of the dotless i and of the
  long s are \<open>I\<close> and \<open>S\<close>.
\<close>

definition latin_isalpha :: "nat \<Rightarrow> bool" where
  "latin_isalpha c =
     (0x41 \<le> c \<and> c \<le> 0x5A \<or> 0x61 \<le> c \<and> c \<le> 0x7A \<or> c = 0xAA \<or> c = 0xB5 \<or> c = 0xBA \<or>
      0xC0 \<le> c \<and> c \<le> 0xD6 \<or> 0xD8 \<le> c \<and> c \<le> 0xF6 \<or> 0xF8 \<le> c \<and> c \<le> 0x17F)"

definition latin_isalnum :: "nat \<Rightarrow> bool" where
  "latin_isalnum c =
     (latin_isalpha c \<or> 0x30 \<le> c \<and> c \<le> 0x39 \<or> c = 0xB2 \<or> c = 0xB3 \<or> c = 0xB9 \<or>
      0xBC \<le> c \<and> c \<le> 0xBE)"

definition latin_tolower :: "nat \<Rightarrow> nat" where
  "latin_tolower c =
     (if 0x41 \<le> c \<and> c \<le> 0x5A \<or> 0xC0 \<le> c \<and> c \<le> 0xDE \<and> c \<noteq> 0xD7 then c + 0x20
      else if c = 0x130 then 0x69
      else if c = 0x178 then 0xFF
      else if (0x100 \<le> c \<and> c \<le> 0x137 \<or> 0x14A \<le> c \<and> c \<le> 0x177) \<and> even c then c + 1
      else if (0x139 \<le> c \<and> c \<le> 0x148 \<or> 0x179 \<le> c \<and> c \<le> 0x17E) \<and> odd c then c + 1
      else c)"

definition latin_toupper :: "nat \<Rightarrow> nat" where
  "latin_toupper c =
     (if 0x61 \<le> c \<and> c \<le> 0x7A \<or> 0xE0 \<le> c \<and> c \<le> 0xFE \<and> c \<noteq> 0xF7 then c - 0x20
      else if c = 0xB5 then 0x39C
      else if c = 0xDF then 0x53
      else if c = 0xFF then 0x178
      else if c = 0x131 then 0x49
      else if c = 0x149 then 0x2BC
      else if c = 0x17F then 0x53
      else if (0x100 \<le> c \<and> c \<le> 0x137 \<or> 0x14A \<le> c \<and> c \<le> 0x177) \<and> odd c then c - 1
      else if (0x139 \<le> c \<and> c \<le> 0x148 \<or> 0x179 \<le> c \<and> c \<le> 0x17E) \<and> even c then c - 1
      else c)"

definition latin_lower :: "str \<Rightarrow> str" where
  "latin_lower w = concat (map (\<lambda>c. if c = 0x130 then [0x69, 0x307] else [latin_tolower c]) w)"

definition latin_extra_cases :: "nat \<rightharpoonup> nat list" where
  "latin_extra_cases =
     [0x69 \<mapsto> [0x131], 0x73 \<mapsto> [0x17F], 0xB5 \<mapsto> [0x3BC], 0x131 \<mapsto> [0x69], 0x17F \<mapsto> [0x73]]"

definition latin :: unicodedata where
  "latin =
     \<lparr>cp_isalpha = latin_isalpha, cp_isalnum = latin_isalnum, cp_tolower = latin_tolower,
      cp_toupper = latin_toupper, full_lower = latin_lower, EXTRA_CASES = latin_extra_cases\<rparr>"

text \<open>
  A text with pronouns and their look-alikes: \<open>US\<close> in capitals, \<open>us\<close> written with
  the long s (U+017F), the dotless i (U+0131) and the capital I with a dot (U+0130)
  are whole words; the \<open>I\<close> at the head of the name Inaki written with n tilde
  (U+00F1), the \<open>us\<close> of \<open>bus\<close> and the \<open>us\<close> followed by an e acute (U+00E9) are
  parts of longer words.
\<close>

definition pronoun_text :: str where
  "pronoun_text =
     str ''I'' @ [0xF1] @ str ''aki told US: u'' @ [0x17F] @ str '', '' @ [0x131] @
     str '' and '' @ [0x130] @ str ''; the bus, us'' @ [0xE9]"

text \<open>
  An operating system with the paths of POSIX, where the article folder is there and is
  the only directory: \<open>os.path.join\<close> puts a slash between the two parts, unless the
  first is empty or ends in one, and keeps the second part alone when it starts with a
  slash; a path opens for writing when it names a file directly in the folder, and every
  write to an open file succeeds.
\<close>

definition posixpath_join :: "str \<Rightarrow> str \<Rightarrow> str" where
  "posixpath_join a b =
     (if take 1 b = str ''/'' then b
      else if a = [] \<or> endswith a (str ''/'') then a @ b
      else a @ str ''/'' @ b)"

definition in_article_folder :: "str \<Rightarrow> bool" where
  "in_article_folder path =
     (take (length ARTICLE_FOLDER + 1) path = ARTICLE_FOLDER @ str ''/'' \<and>
      list_all (\<lambda>c. c \<noteq> 0x2F) (drop (length ARTICLE_FOLDER + 1) path))"

definition folder_os :: os where
  "folder_os =
     \<lparr>os_path_join = posixpath_join,
      os_open = (\<lambda>path. if in_article_folder path then None
                        else Some (OSError (str ''No such file or directory''))),
      os_write = (\<lambda>path s. None)\<rparr>"

text \<open>
  A page answered with status 200 that has neither a heading nor the article container
  and a session that answers every URL with it, an empty article folder with nothing
  printed yet, a page that has a heading and the container, and a session that reaches
  one URL only.
\<close>

definition empty_soup :: soup where
  "empty_soup = \<lparr>h1 = None, td_post_content = None\<rparr>"

definition empty_page :: response where
  "empty_page = \<lparr>status_code = 200, reason = str ''OK'', parsed = Inr empty_soup\<rparr>"

definition empty_session :: "str \<Rightarrow> exn + response" where
  "empty_session url = Inr empty_page"

definition initial_state :: state where
  "initial_state = \<lparr>files = Map.empty, stdout = []\<rparr>"

definition article_page :: response where
  "article_page =
     \<lparr>status_code = 200, reason = str ''OK'',
      parsed = Inr \<lparr>h1 = Some (str ''Title''),
                    td_post_content = Some [str ''I love this.'', str ''We love that.'']\<rparr>\<rparr>"

definition example_session :: "str \<Rightarrow> exn + response" where
  "example_session url =
     (if url = str ''http://example.com/a'' then Inr article_page
      else Inl (RequestException (str ''Max retries exceeded'')))"

lemmas string_defs =
  str_def ascii_tolower_def lower_def isalpha_def endswith_def

lemmas syllable_defs =
  vowels_def scan_step_def count_syllables_def is_complex_def

lemmas latin_defs =
  latin_def latin_isalpha_def latin_isalnum_def latin_tolower_def latin_toupper_def
  latin_lower_def latin_extra_cases_def

lemmas re_defs =
  unicode_iscased_def lit_match_def word_char_def at_boundary_def literal_def
  pronoun_pattern_def count_personal_pronouns_def

lemmas num_defs =
  bind_err_def float_of_int_def fadd_def fmul_def truediv_def
  polarity_score_def subjectivity_score_def cleaned_words_def

lemmas extract_defs =
  ARTICLE_FOLDER_def article_path_def newline_def raise_for_status_def
  extract_article_def extract_articles_def

lemmas example_defs =
  empty_soup_def empty_page_def empty_session_def initial_state_def article_page_def
  example_session_def
  posixpath_join_def in_article_folder_def folder_os_def endswith_def

section \<open>Properties\<close>

subsection \<open>Syllable counting\<close>

text \<open>
  Claim C1, as stated: \<open>count_syllables\<close> of the word "created" is 2, and the word is
  not complex. The scan meets the vowel groups "ea" and "e", since the "a" directly
  follows a vowel and is not counted; that is 2 groups, not 3. The ending "ed" takes one
  off, so the function returns 1, not 2.
\<close>

theorem C1_created_not_two: "count_syllables latin (str ''created'') \<noteq> 2"
  by (simp add: string_defs syllable_defs)

text \<open>
  Claim C1, amended: \<open>count_syllables\<close> of the word "created" is 1 (two vowel groups,
  minus one for the ending "ed"), and \<open>is_complex\<close> of it is false.
\<close>

theorem C1_created:
  "count_syllables db (str ''created'') = 1 \<and> \<not> is_complex db (str ''created'')"
  by (simp add: string_defs syllable_defs)

text \<open>
  Claim C2: the syllable count is at least 1. It holds of every word, so in particular of
  every non-empty alphabetic one, whatever the scan and the decrement for the endings
  "es" and "ed" leave: the result is \<open>max count 1\<close>.
\<close>

theorem C2_count_syllables_ge_1: "1 \<le> count_syllables db word"
  by (simp add: count_syllables_def Let_def)

lemma count_syllables_floor_example:
  "count_syllables db (str ''ed'') = 1 \<and> count_syllables db (str ''yes'') = 1 \<and>
   count_syllables db (str ''Tsk'') = 1"
  by (simp add: string_defs syllable_defs)

lemma str_inject: "(str a = str b) = (a = b)"
  unfolding str_def by (simp add: inj_map_eq_map inj_on_def)

subsection \<open>The example database\<close>

lemma unicode_latin: "unicode latin"
proof -
  have lo: "\<forall>c < 0x80. latin_tolower c = ascii_tolower c \<and> latin_toupper c = ascii_toupper c"
    by (simp add: latin_tolower_def latin_toupper_def ascii_tolower_def ascii_toupper_def)
  have ex: "\<forall>c < 0x80. c \<noteq> 0x69 \<longrightarrow> c \<noteq> 0x73 \<longrightarrow> latin_extra_cases c = None"
    by (simp add: latin_extra_cases_def)
  have al: "ascii_isalpha (caseless latin ch) \<longrightarrow> latin_isalnum ch" for ch
  proof
    assume a: "ascii_isalpha (caseless latin ch)"
    consider "ch < 0x80" | "0x80 \<le> ch" "ch \<le> 0x17F" | "0x17F < ch" by linarith
    then show "latin_isalnum ch"
    proof cases
      case 1
      with a show ?thesis
        by (auto simp add: caseless_def latin_def latin_tolower_def ascii_isalpha_def
            latin_isalnum_def latin_isalpha_def Let_def split: if_splits)
    next
      case 2
      with a show ?thesis
        by (auto simp add: caseless_def latin_def latin_tolower_def ascii_isalpha_def
            latin_isalnum_def latin_isalpha_def Let_def split: if_splits)
    next
      case 3
      with a show ?thesis
        by (auto simp add: caseless_def latin_def latin_tolower_def ascii_isalpha_def
            Let_def split: if_splits)
    qed
  qed
  show ?thesis
    unfolding unicode_def
    using lo ex al by (simp add: latin_def latin_extra_cases_def)
qed

subsection \<open>The pronoun pattern matches whole words\<close>

text \<open>
  An ASCII letter of the pattern matches the characters that are this letter up to case,
  and these are word characters.
\<close>

lemma lit_match_letter:
  assumes u: "unicode db" and av: "ascii_isalpha av"
  shows "lit_match db True av ch = (caseless db ch = ascii_tolower av)"
proof -
  have lt: "av < 0x80" using av by (auto simp add: ascii_isalpha_def)
  have lo: "cp_tolower db av = ascii_tolower av" and up: "cp_toupper db av = ascii_toupper av"
    using u lt unfolding unicode_def by blast+
  have cased: "unicode_iscased db av"
    using av by (auto simp add: unicode_iscased_def lo up ascii_tolower_def ascii_toupper_def
        ascii_isalpha_def)
  have l80: "ascii_tolower av < 0x80" and lal: "0x61 \<le> ascii_tolower av" "ascii_tolower av \<le> 0x7A"
    using av by (auto simp add: ascii_tolower_def ascii_isalpha_def)
  have ei: "EXTRA_CASES db 0x69 = Some [0x131]" and es: "EXTRA_CASES db 0x73 = Some [0x17F]"
    using u unfolding unicode_def by blast+
  have en: "EXTRA_CASES db c = None" if "c < 0x80" "c \<noteq> 0x69" "c \<noteq> 0x73" for c
    using u that unfolding unicode_def by blast
  consider (i) "ascii_tolower av = 0x69" | (s) "ascii_tolower av = 0x73"
    | (o) "ascii_tolower av \<noteq> 0x69" "ascii_tolower av \<noteq> 0x73" by blast
  then show ?thesis
  proof cases
    case i
    then show ?thesis
      using cased ei by (auto simp add: lit_match_def lo caseless_def Let_def)
  next
    case s
    then show ?thesis
      using cased es by (auto simp add: lit_match_def lo caseless_def Let_def)
  next
    case o
    then have "EXTRA_CASES db (ascii_tolower av) = None"
      using en l80 by blast
    then show ?thesis
      using cased o lal by (auto simp add: lit_match_def lo caseless_def Let_def)
  qed
qed

lemma lit_match_word:
  assumes u: "unicode db" and av: "ascii_isalpha av" and m: "lit_match db True av ch"
  shows "word_char db ch"
proof -
  have "caseless db ch = ascii_tolower av"
    using m lit_match_letter [OF u av] by simp
  moreover have "ascii_isalpha (ascii_tolower av)"
    using av by (auto simp add: ascii_tolower_def ascii_isalpha_def)
  ultimately have "ascii_isalpha (caseless db ch)" by simp
  then have "cp_isalnum db ch"
    using u unfolding unicode_def by blast
  then show ?thesis by (simp add: word_char_def)
qed

lemma caseless_eq_all_word:
  assumes u: "unicode db"
  shows "map (caseless db) t = map ascii_tolower w \<Longrightarrow> list_all ascii_isalpha w \<Longrightarrow>
     list_all (word_char db) t"
proof (induction t arbitrary: w)
  case Nil
  then show ?case by simp
next
  case (Cons x t)
  then obtain c w' where w: "w = c # w'"
    by (cases w) auto
  with Cons.prems have "caseless db x = ascii_tolower c" "map (caseless db) t = map ascii_tolower w'"
    "ascii_isalpha c" "list_all ascii_isalpha w'"
    by simp_all
  with Cons.IH [of w'] show ?case
    using lit_match_word [OF u, of c x] lit_match_letter [OF u, of c x] by simp
qed

text \<open>A literal matches, whatever the case of the letters, the prefix of its own length.\<close>

lemma rmatch_literal:
  assumes u: "unicode db"
  shows "list_all ascii_isalpha w \<Longrightarrow>
   rmatch db True (literal w) (p, s) =
     (if length w \<le> length s \<and> map (caseless db) (take (length w) s) = map ascii_tolower w
      then [(if w = [] then p else Some (last (take (length w) s)), drop (length w) s)]
      else [])"
proof (induction w arbitrary: p s)
  case Nil
  then show ?case by (simp add: literal_def)
next
  case (Cons c w)
  have lit: "literal (c # w) = Seq (Lit c) (literal w)"
    by (simp add: literal_def)
  have c: "ascii_isalpha c" and w: "list_all ascii_isalpha w"
    using Cons.prems by simp_all
  show ?case
  proof (cases s)
    case Nil
    then show ?thesis by (simp add: lit)
  next
    case s: (Cons x xs)
    have m: "lit_match db True c x = (caseless db x = ascii_tolower c)"
      by (rule lit_match_letter [OF u c])
    show ?thesis
    proof (cases "caseless db x = ascii_tolower c")
      case True
      then show ?thesis
        using Cons.IH [OF w, of "Some x" xs] s m
        by (auto simp add: lit)
    next
      case False
      then show ?thesis
        using s m by (auto simp add: lit)
    qed
  qed
qed

text \<open>
  A prefix of characters that all satisfy \<open>P\<close>, followed by the end of the list or by a
  character that does not, is the longest such prefix.
\<close>

lemma run_split:
  assumes "n \<le> length s" and "list_all P (take n s)"
    and "drop n s = [] \<or> \<not> P (hd (drop n s))"
  shows "takeWhile P s = take n s \<and> dropWhile P s = drop n s"
proof -
  have all: "\<And>x. x \<in> set (take n s) \<Longrightarrow> P x"
    using assms(2) by (simp add: list_all_iff)
  have tl: "takeWhile P (drop n s) = [] \<and> dropWhile P (drop n s) = drop n s"
    using assms(3) by (cases "drop n s") auto
  have "takeWhile P (take n s @ drop n s) = take n s @ takeWhile P (drop n s)"
    using all by (rule takeWhile_append2)
  moreover have "dropWhile P (take n s @ drop n s) = dropWhile P (drop n s)"
    using all by (rule dropWhile_append2)
  ultimately show ?thesis using tl by simp
qed

text \<open>
  One alternative of the pattern, followed by the closing word boundary: it matches
  exactly when the run of word characters at the position is the alternative, up to
  case, and the match is that run.
\<close>

lemma alt_piece:
  assumes u: "unicode db" and w: "w \<noteq> []" "list_all ascii_isalpha w"
  shows "concat (map (rmatch db True WordBoundary) (rmatch db True (literal w) (p, s))) =
     (if map (caseless db) (takeWhile (word_char db) s) = map ascii_tolower w
      then [(Some (last (takeWhile (word_char db) s)), dropWhile (word_char db) s)] else [])"
proof (cases "map (caseless db) (takeWhile (word_char db) s) = map ascii_tolower w")
  case True
  let ?run = "takeWhile (word_char db) s"
  let ?rest = "dropWhile (word_char db) s"
  have len: "length ?run = length w"
    using True by (metis length_map)
  have run: "?run = take (length w) s"
    using len takeWhile_eq_take [of "word_char db" s] by simp
  have rest: "?rest = drop (length w) s"
    using len dropWhile_eq_drop [of "word_char db" s] by simp
  have le: "length w \<le> length s"
    using len length_takeWhile_le [of "word_char db" s] by simp
  have ne: "?run \<noteq> []" using len w(1) by auto
  then have "last ?run \<in> set ?run" by simp
  then have lw: "word_char db (last ?run)" by (rule set_takeWhileD [THEN conjunct2])
  have nxt: "?rest = [] \<or> \<not> word_char db (hd ?rest)"
    using hd_dropWhile [of "word_char db" s] by blast
  have bd: "at_boundary db (Some (last ?run)) ?rest"
  proof (cases ?rest)
    case Nil
    show ?thesis unfolding at_boundary_def Nil using lw by simp
  next
    case (Cons y ys)
    with nxt have "\<not> word_char db y" by simp
    then show ?thesis unfolding at_boundary_def Cons using lw by simp
  qed
  have "rmatch db True (literal w) (p, s) =
      [(Some (last (take (length w) s)), drop (length w) s)]"
    using True le w(1) run by (simp add: rmatch_literal [OF u w(2)])
  then have "rmatch db True (literal w) (p, s) = [(Some (last ?run), ?rest)]"
    using run rest by simp
  then show ?thesis
    using True bd by simp
next
  case False
  show ?thesis
  proof (cases "length w \<le> length s \<and>
      map (caseless db) (take (length w) s) = map ascii_tolower w \<and>
      at_boundary db (Some (last (take (length w) s))) (drop (length w) s)")
    case True
    then have allw: "list_all (word_char db) (take (length w) s)"
      using w(2) caseless_eq_all_word [OF u] by blast
    have tne: "take (length w) s \<noteq> []"
      using True w(1) by auto
    then have "last (take (length w) s) \<in> set (take (length w) s)" by simp
    then have "word_char db (last (take (length w) s))"
      using allw by (simp add: list_all_iff)
    with True have "drop (length w) s = [] \<or> \<not> word_char db (hd (drop (length w) s))"
      by (cases "drop (length w) s") (auto simp: at_boundary_def)
    with True allw have "takeWhile (word_char db) s = take (length w) s"
      using run_split [of "length w" s "word_char db"] by simp
    with True False show ?thesis by simp
  next
    case False
    then show ?thesis
      using w(1) \<open>map (caseless db) (takeWhile (word_char db) s) \<noteq> map ascii_tolower w\<close>
      by (auto simp add: rmatch_literal [OF u w(2)])
  qed
qed

lemma rmatch_pronoun_pattern:
  assumes u: "unicode db"
  shows "rmatch db True pronoun_pattern (p, s) =
     (if at_boundary db p s \<and> is_pronoun db (takeWhile (word_char db) s)
      then [(Some (last (takeWhile (word_char db) s)), dropWhile (word_char db) s)] else [])"
proof -
  have a: "list_all ascii_isalpha (str ''I'')" "list_all ascii_isalpha (str ''we'')"
    "list_all ascii_isalpha (str ''my'')" "list_all ascii_isalpha (str ''ours'')"
    "list_all ascii_isalpha (str ''us'')"
    by (simp_all add: str_def ascii_isalpha_def)
  have n: "str ''I'' \<noteq> []" "str ''we'' \<noteq> []" "str ''my'' \<noteq> []" "str ''ours'' \<noteq> []"
    "str ''us'' \<noteq> []"
    by (simp_all add: str_def)
  have l: "map ascii_tolower (str ''I'') = str ''i''"
    "map ascii_tolower (str ''we'') = str ''we''"
    "map ascii_tolower (str ''my'') = str ''my''"
    "map ascii_tolower (str ''ours'') = str ''ours''"
    "map ascii_tolower (str ''us'') = str ''us''"
    by (simp_all add: str_def ascii_tolower_def)
  note pieces =
    alt_piece [OF u n(1) a(1), of p s] alt_piece [OF u n(2) a(2), of p s]
    alt_piece [OF u n(3) a(3), of p s] alt_piece [OF u n(4) a(4), of p s]
    alt_piece [OF u n(5) a(5), of p s]
  show ?thesis
    unfolding pronoun_pattern_def
    by (auto simp add: pieces l is_pronoun_def pronouns_def str_inject)
qed

lemma at_boundary_Cons: "at_boundary db p (x # xs) = (prev_word db p \<noteq> word_char db x)"
  by (simp add: at_boundary_def prev_word_def)

lemma matched_text:
  "take (length s - length (dropWhile P s)) s = takeWhile P s"
proof -
  have "length (takeWhile P s) + length (dropWhile P s) = length s"
    by (metis length_append takeWhile_dropWhile_id)
  then have "length s - length (dropWhile P s) = length (takeWhile P s)"
    by simp
  then show ?thesis
    using takeWhile_eq_take [of P s] by simp
qed

lemma not_pronoun_Nil: "\<not> is_pronoun db []"
  by (simp add: is_pronoun_def pronouns_def str_def)

text \<open>
  The scan, from any position: inside a word it first leaves the word, then it reports
  the whole words that are pronouns, in their order.
\<close>

lemma findall_pronouns:
  assumes u: "unicode db"
  shows "findall db True pronoun_pattern p s =
     filter (is_pronoun db)
       (words_of db (if prev_word db p then dropWhile (word_char db) s else s))"
proof (induction s arbitrary: p rule: length_induct)
  case (1 s)
  show ?case
  proof (cases s)
    case Nil
    then show ?thesis
      by (simp add: rmatch_pronoun_pattern [OF u] not_pronoun_Nil)
  next
    case (Cons x xs)
    have IH: "\<And>t q. length t < length s \<Longrightarrow> findall db True pronoun_pattern q t =
        filter (is_pronoun db)
          (words_of db (if prev_word db q then dropWhile (word_char db) t else t))"
      using 1 by blast
    have step: "findall db True pronoun_pattern (Some x) xs =
        filter (is_pronoun db)
          (words_of db (if word_char db x then dropWhile (word_char db) xs else xs))"
      using IH [of xs "Some x"] Cons by (simp add: prev_word_def)
    show ?thesis
    proof (cases "at_boundary db p s \<and> is_pronoun db (takeWhile (word_char db) s)")
      case False
      then have none: "rmatch db True pronoun_pattern (p, x # xs) = []"
        using Cons by (simp add: rmatch_pronoun_pattern [OF u])
      have "findall db True pronoun_pattern p s = findall db True pronoun_pattern (Some x) xs"
        using Cons none by simp
      also have "\<dots> = filter (is_pronoun db)
          (words_of db (if prev_word db p then dropWhile (word_char db) s else s))"
      proof (cases "word_char db x")
        case wx: True
        show ?thesis
        proof (cases "prev_word db p")
          case True
          then show ?thesis using wx Cons step by simp
        next
          case np: False
          then have "\<not> is_pronoun db (takeWhile (word_char db) s)"
            using False wx Cons by (simp add: at_boundary_Cons)
          then show ?thesis using wx np Cons step by simp
        qed
      next
        case nx: False
        then show ?thesis using Cons step by simp
      qed
      finally show ?thesis .
    next
      case True
      have wx: "word_char db x"
      proof (rule ccontr)
        assume "\<not> word_char db x"
        then have "takeWhile (word_char db) s = []" using Cons by simp
        with True show False by (simp add: not_pronoun_Nil)
      qed
      have np: "\<not> prev_word db p"
        using True wx Cons by (simp add: at_boundary_Cons)
      let ?rest = "dropWhile (word_char db) s"
      let ?run = "takeWhile (word_char db) s"
      have m: "rmatch db True pronoun_pattern (p, x # xs) = [(Some (last ?run), ?rest)]"
        using True Cons by (simp add: rmatch_pronoun_pattern [OF u])
      have rest: "?rest = dropWhile (word_char db) xs"
        using wx Cons by simp
      have shorter: "length ?rest < length s"
        using rest Cons length_dropWhile_le [of "word_char db" xs] by simp
      have "last ?run \<in> set ?run"
        using wx Cons by simp
      then have lw: "word_char db (last ?run)"
        by (rule set_takeWhileD [THEN conjunct2])
      have "findall db True pronoun_pattern p s =
          take (length s - length ?rest) s #
            findall db True pronoun_pattern (Some (last ?run)) ?rest"
        using m shorter Cons by simp
      also have "take (length s - length ?rest) s = ?run"
        by (rule matched_text)
      also have "findall db True pronoun_pattern (Some (last ?run)) ?rest =
          filter (is_pronoun db) (words_of db ?rest)"
        using IH [OF shorter, of "Some (last ?run)"] lw by (simp add: prev_word_def)
      finally show ?thesis
        using True np wx Cons by simp
    qed
  qed
qed

text \<open>
  Claim C9: the pronoun count of a text is the number of its whole words (maximal runs
  of word characters, taken from the text as it is, before any filtering) that are one
  of I, we, my, ours, us up to the case of the letters. So the "us" inside "bus" counts
  for nothing, the whole word there being "bus", and each standalone pronoun counts
  once, in whatever case it is written. The text is any string of Unicode characters;
  a letter outside ASCII next to the letters of a pronoun makes a longer word.
\<close>

theorem C9_pronouns_are_whole_words:
  assumes "unicode db"
  shows "count_personal_pronouns db text =
     int (length (filter (is_pronoun db) (words_of db text)))"
  by (simp add: count_personal_pronouns_def findall_pronouns [OF assms] prev_word_def)

lemma words_of_pronoun_text:
  "words_of latin pronoun_text =
     [str ''I'' @ [0xF1] @ str ''aki'', str ''told'', str ''US'', str ''u'' @ [0x17F], [0x131],
      str ''and'', [0x130], str ''the'', str ''bus'', str ''us'' @ [0xE9]]"
  by (simp add: pronoun_text_def str_def word_char_def latin_defs)

lemma pronouns_of_pronoun_text:
  "filter (is_pronoun latin) (words_of latin pronoun_text) =
     [str ''US'', str ''u'' @ [0x17F], [0x131], [0x130]]"
  unfolding words_of_pronoun_text
  by (simp add: str_def is_pronoun_def pronouns_def caseless_def latin_defs)

theorem C9_pronouns_are_whole_words_witness:
  "unicode latin \<and> count_personal_pronouns latin pronoun_text = 4"
  using C9_pronouns_are_whole_words [OF unicode_latin, of pronoun_text] unicode_latin
  by (simp add: pronouns_of_pronoun_text)

text \<open>The matcher itself, run on short texts.\<close>

lemma count_personal_pronouns_example:
  "count_personal_pronouns latin (str ''The bus took US and us'') = 2"
  by (simp add: re_defs str_def latin_defs)

lemma count_personal_pronouns_latin_example:
  "count_personal_pronouns latin (str ''us'' @ [0xE9]) = 0 \<and>
   count_personal_pronouns latin (str ''I'' @ [0xF1] @ str ''aki'') = 0 \<and>
   count_personal_pronouns latin (str ''u'' @ [0x17F]) = 1 \<and>
   count_personal_pronouns latin [0x131] = 1 \<and>
   count_personal_pronouns latin [0x130] = 1"
  by (simp add: re_defs str_def latin_defs)

subsection \<open>Rounding\<close>

lemma exact_rounding: "rounding (\<lambda>x. x)"
  by (simp add: rounding_def mono_def)

lemma rounding_mono: "rounding rnd \<Longrightarrow> x \<le> y \<Longrightarrow> rnd x \<le> rnd y"
  by (simp add: rounding_def mono_def)

lemma rounding_zero: "rounding rnd \<Longrightarrow> rnd 0 = 0"
proof -
  assume "rounding rnd"
  then have "rnd (- 0) = - rnd 0" unfolding rounding_def by blast
  then show ?thesis by simp
qed

lemma rounding_one: "rounding rnd \<Longrightarrow> rnd 1 = 1"
  by (simp add: rounding_def)

lemma rounding_minus: "rounding rnd \<Longrightarrow> rnd (- x) = - rnd x"
  by (simp add: rounding_def)

lemma rounding_idem: "rounding rnd \<Longrightarrow> rnd (rnd x) = rnd x"
  by (simp add: rounding_def)

lemma rounding_epsilon: "rounding rnd \<Longrightarrow> 0 < rnd (1 / 1000000)"
  by (simp add: rounding_def)

lemma rounding_nonneg: "rounding rnd \<Longrightarrow> 0 \<le> x \<Longrightarrow> 0 \<le> rnd x"
  using rounding_mono [of rnd 0 x] by (simp add: rounding_zero)

lemma rounding_unit_interval:
  assumes "rounding rnd" and "- 1 \<le> x" and "x \<le> 1"
  shows "- 1 \<le> rnd x \<and> rnd x \<le> 1"
proof -
  have "rnd (- 1) \<le> rnd x" and "rnd x \<le> rnd 1"
    by (rule rounding_mono [OF assms(1)], rule assms)+
  then show ?thesis
    using assms(1) by (simp add: rounding_minus rounding_one)
qed

text \<open>The denominator \<open>k + 0.000001\<close> of the two scores, for a count \<open>k\<close>.\<close>

lemma denominator_bounds:
  assumes r: "rounding rnd" and k: "0 \<le> k"
  shows "0 < fadd rnd (float_of_int rnd k) (rnd (1 / 1000000))"
    and "float_of_int rnd k \<le> fadd rnd (float_of_int rnd k) (rnd (1 / 1000000))"
proof -
  let ?b = "rnd (of_int k)" and ?e = "rnd (1 / 1000000)"
  have e: "0 < ?e" using r by (rule rounding_epsilon)
  have b: "0 \<le> ?b" using r k by (simp add: rounding_nonneg)
  have "rnd ?e \<le> rnd (?b + ?e)"
    by (rule rounding_mono [OF r]) (use b in simp)
  then have "?e \<le> rnd (?b + ?e)"
    using r by (simp add: rounding_idem)
  with e show "0 < fadd rnd (float_of_int rnd k) (rnd (1 / 1000000))"
    by (simp add: fadd_def float_of_int_def)
  have "rnd ?b \<le> rnd (?b + ?e)"
    by (rule rounding_mono [OF r]) (use e in simp)
  then show "float_of_int rnd k \<le> fadd rnd (float_of_int rnd k) (rnd (1 / 1000000))"
    using r by (simp add: rounding_idem fadd_def float_of_int_def)
qed

lemma polarity_score_value:
  assumes "rounding rnd" and "0 \<le> p" and "0 \<le> n"
  shows "polarity_score rnd p n =
     Inr (rnd (float_of_int rnd (p - n) /
       fadd rnd (float_of_int rnd (p + n)) (rnd (1 / 1000000))))"
  using denominator_bounds(1) [of rnd "p + n"] assms
  by (simp add: polarity_score_def truediv_def)

lemma subjectivity_score_value:
  assumes "rounding rnd" and "0 \<le> k"
  shows "subjectivity_score rnd p n k =
     Inr (rnd (float_of_int rnd (p + n) / fadd rnd (float_of_int rnd k) (rnd (1 / 1000000))))"
  using denominator_bounds(1) [of rnd k] assms
  by (simp add: subjectivity_score_def truediv_def)

subsection \<open>The polarity score\<close>

text \<open>
  Claim C4: for non-negative positive and negative scores the division of the polarity
  score does not fail, and the score lies between -1 and 1. The numerator is at most the
  denominator in absolute value, before and after each rounding.
\<close>

theorem C4_polarity_score_range:
  assumes r: "rounding rnd" and p: "0 \<le> positive_score" and n: "0 \<le> negative_score"
  shows "\<exists>x. polarity_score rnd positive_score negative_score = Inr x \<and> - 1 \<le> x \<and> x \<le> 1"
proof -
  let ?a = "float_of_int rnd (positive_score - negative_score)"
  let ?b = "float_of_int rnd (positive_score + negative_score)"
  let ?d = "fadd rnd ?b (rnd (1 / 1000000))"
  have d: "0 < ?d" and bd: "?b \<le> ?d"
    using denominator_bounds [of rnd "positive_score + negative_score"] r p n by simp_all
  have "?a \<le> ?b"
    unfolding float_of_int_def by (rule rounding_mono [OF r]) (use n in simp)
  then have up: "?a \<le> ?d" using bd by simp
  have "rnd (of_int (negative_score - positive_score)) \<le> ?b"
    unfolding float_of_int_def by (rule rounding_mono [OF r]) (use p in simp)
  moreover have "rnd (of_int (negative_score - positive_score)) = - ?a"
    using rounding_minus [OF r, of "of_int (positive_score - negative_score)"]
    by (simp add: float_of_int_def)
  ultimately have lo: "- ?d \<le> ?a" using bd by simp
  have "- 1 \<le> ?a / ?d" and "?a / ?d \<le> 1"
    using d up lo by (simp_all add: pos_le_divide_eq pos_divide_le_eq)
  then have "- 1 \<le> rnd (?a / ?d) \<and> rnd (?a / ?d) \<le> 1"
    by (rule rounding_unit_interval [OF r])
  then show ?thesis
    using polarity_score_value [OF r p n] by simp
qed

theorem C4_polarity_score_range_witness:
  "rounding (\<lambda>x. x) \<and> (0::int) \<le> 2 \<and> (0::int) \<le> 5 \<and>
   (\<exists>x. polarity_score (\<lambda>x. x) 2 5 = Inr x \<and> - 1 \<le> x \<and> x \<le> 1)"
proof -
  have r: "rounding (\<lambda>x. x)" by (simp add: rounding_def mono_def)
  show ?thesis
    using r C4_polarity_score_range [OF r, of 2 5] by simp
qed

subsection \<open>The metrics vector\<close>

lemma count_ones: "(\<Sum>w \<leftarrow> xs. (1::int)) = int (length xs)"
  by (induction xs) simp_all

text \<open>
  \<open>analyze_text\<close> returns, and this is its vector, but for the two scores and the fog
  index, which the claims below do not read.
\<close>

lemma analyze_text_value:
  fixes db :: unicodedata and sent_tokenize word_tokenize :: "str \<Rightarrow> str list"
    and "text" :: str and stop_words positive_words negative_words :: "str set"
  assumes r: "rounding rnd"
  defines "cw \<equiv> cleaned_words db (word_tokenize text) stop_words"
  defines "wc \<equiv> int (length cw)"
  defines "sc \<equiv> int (length (sent_tokenize text))"
  shows "\<exists>ps ss fi.
    analyze_text rnd db sent_tokenize word_tokenize text stop_words positive_words
        negative_words =
      Inr [of_int (int (length (filter (\<lambda>w. w \<in> positive_words) cw))),
           of_int (int (length (filter (\<lambda>w. w \<in> negative_words) cw))),
           ps, ss,
           guarded_ratio rnd wc sc,
           guarded_ratio rnd (int (length (filter (is_complex db) cw))) wc,
           fi,
           guarded_ratio rnd wc sc,
           of_int (int (length (filter (is_complex db) cw))),
           of_int wc,
           guarded_ratio rnd (\<Sum>w \<leftarrow> cw. count_syllables db w) wc,
           of_int (count_personal_pronouns db text),
           guarded_ratio rnd (\<Sum>w \<leftarrow> cw. int (length w)) wc]"
proof -
  let ?p = "int (length (filter (\<lambda>w. w \<in> positive_words) cw))"
  let ?n = "int (length (filter (\<lambda>w. w \<in> negative_words) cw))"
  obtain ps where ps: "polarity_score rnd ?p ?n = Inr ps"
    using polarity_score_value [OF r, of ?p ?n] by simp
  obtain ss where ss: "subjectivity_score rnd ?p ?n wc = Inr ss"
    using subjectivity_score_value [OF r, of wc ?p ?n] by (simp add: wc_def)
  have g: "\<And>a b. (if b \<noteq> 0 then truediv rnd (of_int a) (of_int b) else Inr 0) =
      Inr (guarded_ratio rnd a b)"
    by (simp add: truediv_def guarded_ratio_def)
  show ?thesis
    unfolding analyze_text_def Let_def count_ones
    unfolding cw_def [symmetric] wc_def [symmetric] sc_def [symmetric]
    unfolding ps ss g bind_err_def sum.case
    by blast
qed

lemma guarded_ratio_unit:
  assumes r: "rounding rnd" and "0 \<le> a" and "a \<le> b"
  shows "0 \<le> guarded_ratio rnd a b \<and> guarded_ratio rnd a b \<le> 1"
proof (cases "b = 0")
  case True
  then show ?thesis by (simp add: guarded_ratio_def)
next
  case False
  with assms have b: "0 < (of_int b :: real)" by simp
  have q: "0 \<le> (of_int a :: real) / of_int b" "(of_int a :: real) / of_int b \<le> 1"
    using assms(2,3) b by (simp_all add: pos_divide_le_eq)
  have "0 \<le> rnd (of_int a / of_int b)"
    using r q(1) by (rule rounding_nonneg)
  moreover have "rnd (of_int a / of_int b) \<le> rnd 1"
    using r q(2) by (rule rounding_mono)
  ultimately show ?thesis
    using False r by (simp add: guarded_ratio_def rounding_one)
qed

lemma cleaned_words_example:
  "cleaned_words latin [str ''Caf'' @ [0xE9], str ''Tea'', str ''42'', str ''.''] {str ''tea''} =
     [str ''caf'' @ [0xE9]]"
  by (simp add: cleaned_words_def string_defs latin_defs)

lemma analyze_text_example:
  "analyze_text (\<lambda>x. x) latin (\<lambda>t. [str ''I love this.'', str ''We love that.''])
     (\<lambda>t. [str ''I'', str ''love'', str ''this'', str ''.'', str ''We'', str ''love'',
           str ''that'', str ''.''])
     (str ''I love this. We love that.'') {} {str ''love''} {} =
   Inr [2, 0, 2000000 / 2000001, 2000000 / 6000001, 3, 0, 6 / 5, 3, 0, 6, 4 / 3, 2, 19 / 6]"
  by (simp add: analyze_text_def num_defs re_defs string_defs syllable_defs latin_defs)

text \<open>
  Claim C3: when the list of cleaned words is empty, \<open>analyze_text\<close> returns its vector
  of 13 values, no division failing, whatever the number of sentences, and the average
  sentence length (index 4 from 0), the share of complex words (5), the syllables per
  word (10) and the average word length (12) are 0.
\<close>

theorem C3_no_words_all_zero:
  assumes "rounding rnd"
    and "cleaned_words db (word_tokenize text) stop_words = []"
  shows "\<exists>m. analyze_text rnd db sent_tokenize word_tokenize text stop_words
            positive_words negative_words = Inr m \<and>
          length m = 13 \<and> m ! 4 = 0 \<and> m ! 5 = 0 \<and> m ! 10 = 0 \<and> m ! 12 = 0"
proof -
  have z: "rnd 0 = 0" using assms(1) by (rule rounding_zero)
  obtain ps ss fi m where
    "analyze_text rnd db sent_tokenize word_tokenize text stop_words
        positive_words negative_words = Inr m"
    and "m = [0, 0, ps, ss, guarded_ratio rnd 0 (int (length (sent_tokenize text))),
           guarded_ratio rnd 0 0, fi, guarded_ratio rnd 0 (int (length (sent_tokenize text))),
           0, 0, guarded_ratio rnd 0 0, of_int (count_personal_pronouns db text),
           guarded_ratio rnd 0 0]"
    using analyze_text_value [OF assms(1), of db sent_tokenize word_tokenize "text" stop_words
        positive_words negative_words] assms(2)
    by auto
  then show ?thesis
    by (simp add: guarded_ratio_def z)
qed

theorem C3_no_words_all_zero_witness:
  "rounding (\<lambda>x. x) \<and>
   cleaned_words latin [str ''1'', str ''2'', str ''3'', str ''.''] {} = [] \<and>
   (\<exists>m. analyze_text (\<lambda>x. x) latin (\<lambda>t. [str ''1 2 3.''])
          (\<lambda>t. [str ''1'', str ''2'', str ''3'', str ''.''])
          (str ''1 2 3.'') {} {str ''good''} {str ''bad''} = Inr m \<and>
        length m = 13 \<and> m ! 4 = 0 \<and> m ! 5 = 0 \<and> m ! 10 = 0 \<and> m ! 12 = 0)"
proof -
  have c: "cleaned_words latin [str ''1'', str ''2'', str ''3'', str ''.''] {} = []"
    by (simp add: cleaned_words_def string_defs latin_defs)
  show ?thesis
    using exact_rounding c
      C3_no_words_all_zero [OF exact_rounding,
        of latin "\<lambda>t. [str ''1'', str ''2'', str ''3'', str ''.'']" "str ''1 2 3.''" "{}"
        "\<lambda>t. [str ''1 2 3.'']" "{str ''good''}" "{str ''bad''}"]
    by simp
qed

text \<open>
  Claim C8: \<open>analyze_text\<close> returns a vector of 13 values whose 8th element (index 7
  from 0) equals its 5th (index 4): the average sentence length stands at both places.
\<close>

theorem C8_eighth_is_fifth:
  assumes "rounding rnd"
  shows "\<exists>m. analyze_text rnd db sent_tokenize word_tokenize text stop_words
            positive_words negative_words = Inr m \<and> length m = 13 \<and> m ! 7 = m ! 4"
  using analyze_text_value [OF assms, of db sent_tokenize word_tokenize "text" stop_words
      positive_words negative_words]
  by auto

theorem C8_eighth_is_fifth_witness:
  "rounding (\<lambda>x. x) \<and>
   (\<exists>m. analyze_text (\<lambda>x. x) latin (\<lambda>t. [str ''We like it.''])
          (\<lambda>t. [str ''We'', str ''like'', str ''it'', str ''.''])
          (str ''We like it.'') {str ''it''} {str ''like''} {str ''bad''} = Inr m \<and>
        length m = 13 \<and> m ! 7 = m ! 4)"
  using exact_rounding
    C8_eighth_is_fifth [OF exact_rounding, of latin "\<lambda>t. [str ''We like it.'']"
      "\<lambda>t. [str ''We'', str ''like'', str ''it'', str ''.'']" "str ''We like it.''"
      "{str ''it''}" "{str ''like''}" "{str ''bad''}"]
  by simp

text \<open>
  Claim C10: in the vector \<open>analyze_text\<close> returns, the positive score (index 0), the
  negative score (1) and the number of complex words (8) are each at most the word count
  (9), and the share of complex words (5) lies between 0 and 1.
\<close>

theorem C10_counts_within_word_count:
  assumes r: "rounding rnd"
  shows "\<exists>m. analyze_text rnd db sent_tokenize word_tokenize text stop_words
            positive_words negative_words = Inr m \<and> length m = 13 \<and>
          m ! 0 \<le> m ! 9 \<and> m ! 1 \<le> m ! 9 \<and> m ! 8 \<le> m ! 9 \<and> 0 \<le> m ! 5 \<and> m ! 5 \<le> 1"
proof -
  let ?cw = "cleaned_words db (word_tokenize text) stop_words"
  have "0 \<le> guarded_ratio rnd (int (length (filter (is_complex db) ?cw))) (int (length ?cw)) \<and>
      guarded_ratio rnd (int (length (filter (is_complex db) ?cw))) (int (length ?cw)) \<le> 1"
    using r by (rule guarded_ratio_unit) simp_all
  then show ?thesis
    using analyze_text_value [OF r, of db sent_tokenize word_tokenize "text" stop_words
      positive_words negative_words]
    by auto
qed

theorem C10_counts_within_word_count_witness:
  "rounding (\<lambda>x. x) \<and>
   (\<exists>m. analyze_text (\<lambda>x. x) latin (\<lambda>t. [str ''We adore it.''])
          (\<lambda>t. [str ''We'', str ''adore'', str ''it'', str ''.''])
          (str ''We adore it.'') {str ''it''} {str ''adore''} {str ''bad''} = Inr m \<and>
        length m = 13 \<and>
        m ! 0 \<le> m ! 9 \<and> m ! 1 \<le> m ! 9 \<and> m ! 8 \<le> m ! 9 \<and> 0 \<le> m ! 5 \<and> m ! 5 \<le> 1)"
  using exact_rounding
    C10_counts_within_word_count [OF exact_rounding, of latin "\<lambda>t. [str ''We adore it.'']"
      "\<lambda>t. [str ''We'', str ''adore'', str ''it'', str ''.'']" "str ''We adore it.''"
      "{str ''it''}" "{str ''adore''}" "{str ''bad''}"]
  by simp

subsection \<open>Pages without content\<close>




text \<open>
  A request whose file does not open: the id \<open>a/b\<close> names a file in a directory that
  is not there. The page is the same empty page; the loop prints the failure with the
  exception of \<open>open\<close> and the folder stays empty.
\<close>

lemma unwritable_row_example:
  "extract_articles folder_os empty_session initial_state
     [(str ''a/b'', str ''http://example.com/a'')] =
   \<lparr>files = Map.empty,
    stdout = [Failed (str ''a/b'') (OSError (str ''No such file or directory''))]\<rparr>"
  by (simp add: extract_defs example_defs str_def)

subsection \<open>The report\<close>

text \<open>
  The second loop, when the analysis returns on every text: it appends one row for each
  request whose article is in the folder, in the order of the requests, and the first two
  cells of the row are the request.
\<close>

lemma analyze_rows_keys:
  assumes total: "\<And>t. \<exists>m. analyze t = Inr m"
  shows "\<exists>new. analyze_rows analyze sys fs rows results = Inr (results @ new) \<and>
     map (take 2) new =
       map (\<lambda>(url_id, url). [S url_id, S url])
         (filter (\<lambda>(url_id, url). fs (article_path sys url_id) \<noteq> None) rows)"
proof (induction rows arbitrary: results)
  case Nil
  then show ?case by simp
next
  case (Cons row rows)
  obtain url_id url where row: "row = (url_id, url)" by (cases row)
  show ?case
  proof (cases "fs (article_path sys url_id)")
    case None
    then show ?thesis using Cons.IH [of results] row by simp
  next
    case (Some t)
    obtain m where m: "analyze t = Inr m" using total by blast
    let ?r = "[S url_id, S url] @ map N m"
    obtain new where new: "analyze_rows analyze sys fs rows (results @ [?r]) = Inr ((results @ [?r]) @ new)"
      and keys: "map (take 2) new =
       map (\<lambda>(url_id, url). [S url_id, S url])
         (filter (\<lambda>(url_id, url). fs (article_path sys url_id) \<noteq> None) rows)"
      using Cons.IH [of "results @ [?r]"] by blast
    have "analyze_rows analyze sys fs (row # rows) results = Inr (results @ (?r # new))"
      using row Some m new by (simp add: bind_err_def)
    moreover have "map (take 2) (?r # new) =
       map (\<lambda>(url_id, url). [S url_id, S url])
         (filter (\<lambda>(url_id, url). fs (article_path sys url_id) \<noteq> None) (row # rows))"
      using row Some keys by simp
    ultimately show ?thesis by blast
  qed
qed

text \<open>
  Claim C7: \<open>main\<close> returns a report, and the requests of its rows (the first two cells
  of each) are exactly the requests of the input whose article file is in the folder
  after the extraction, in the order of the input: one row for each, none for the others.
\<close>

theorem C7_report_rows:
  assumes r: "rounding rnd"
  shows "\<exists>report.
     main rnd db sent_tokenize word_tokenize sys session_get files0 df stop_words
       positive_words negative_words =
       Inr (extract_articles sys session_get \<lparr>files = files0, stdout = []\<rparr> df, report) \<and>
     map (take 2) report =
       map (\<lambda>(url_id, url). [S url_id, S url])
         (filter (\<lambda>(url_id, url).
             files (extract_articles sys session_get \<lparr>files = files0, stdout = []\<rparr> df)
               (article_path sys url_id) \<noteq> None) df)"
proof -
  let ?analyze = "\<lambda>t. analyze_text rnd db sent_tokenize word_tokenize t stop_words
      positive_words negative_words"
  let ?st = "extract_articles sys session_get \<lparr>files = files0, stdout = []\<rparr> df"
  have "\<And>t. \<exists>m. ?analyze t = Inr m"
    using analyze_text_value [OF r] by blast
  then obtain new where "analyze_rows ?analyze sys (files ?st) df [] = Inr ([] @ new)"
    and "map (take 2) new =
       map (\<lambda>(url_id, url). [S url_id, S url])
         (filter (\<lambda>(url_id, url). files ?st (article_path sys url_id) \<noteq> None) df)"
    using analyze_rows_keys [of ?analyze sys "files ?st" df "[]"] by blast
  then show ?thesis
    by (simp add: main_def bind_err_def Let_def)
qed

theorem C7_report_rows_witness:
  "rounding (\<lambda>x. x) \<and>
   (\<exists>report.
      main (\<lambda>x. x) latin (\<lambda>t. [t]) (\<lambda>t. [t]) folder_os example_session Map.empty
        [(str ''1'', str ''http://example.com/a''), (str ''2'', str ''http://example.com/b'')]
        {} {} {} =
        Inr (extract_articles folder_os example_session \<lparr>files = Map.empty, stdout = []\<rparr>
              [(str ''1'', str ''http://example.com/a''),
               (str ''2'', str ''http://example.com/b'')], report) \<and>
      map (take 2) report = [[S (str ''1''), S (str ''http://example.com/a'')]])"
proof -
  have r: "rounding (\<lambda>x. x)" by (simp add: rounding_def mono_def)
  show ?thesis
    using r C7_report_rows [OF r, of latin "\<lambda>t. [t]" "\<lambda>t. [t]" folder_os example_session
        Map.empty
        "[(str ''1'', str ''http://example.com/a''), (str ''2'', str ''http://example.com/b'')]"
        "{}" "{}" "{}"]
    by (simp add: extract_defs example_defs str_def)
qed

end
